theory Spec2Isabelle
  imports Complex_Main "HOL-Library.AList" "HOL-Library.Sublist"
begin

section \<open>Data model\<close>

text \<open>
  The monitor is a Python script (\<^verbatim>\<open>monitor.py\<close>). Its values are modelled as follows.
  \<^item> A Python \<^verbatim>\<open>str\<close> is a list of Unicode code points; \<open>u\<close> turns an ASCII literal into one.
  \<^item> A \<^verbatim>\<open>bytes\<close> object and the content of a file are lists of 8-bit characters.
  \<^item> A Python \<^verbatim>\<open>float\<close> is modelled by the rational number it denotes (comparisons of finite
    floats and integers are exact in Python); NaN and the infinities are outside the model.
  \<^item> A value read from or written to a JSON file is a \<open>json\<close> tree; a \<^verbatim>\<open>dict\<close> is an
    association list in insertion order, looked up with \<open>map_of\<close> and updated in place
    with \<open>AList.update\<close>, as Python's dict does.
\<close>

type_synonym str = "nat list"
type_synonym bytes = "char list"
type_synonym path = string

definition u :: "string \<Rightarrow> str" where
  "u cs = map of_char cs"

datatype json =
    JNull
  | JBool bool
  | JInt int
  | JFloat rat
  | JStr str
  | JArr "json list"
  | JObj "(str \<times> json) list"

datatype smtp_error = SMTPConnectError | SMTPAuthenticationError | SMTPTimeout | SMTPServerError

datatype error =
    KeyError str
  | TypeError
  | AttributeError
  | OSError
  | OverflowError
  | PsutilError
  | ValueError
  | SMTPException smtp_error
  | KeyboardInterrupt

text \<open>
  The functions of the Python standard library that the script calls on text and whose
  result depends on Unicode tables, on the float formatter or on the JSON codec are
  parameters of the model:
  \<^verbatim>\<open>bytes.decode(errors="replace")\<close>, \<^verbatim>\<open>str.lower\<close>, the formatting of a float inside an
  f-string, \<^verbatim>\<open>repr\<close> of a list of strings, \<^verbatim>\<open>json.dump\<close> into a text file and \<^verbatim>\<open>json.load\<close>
  from one (\<open>None\<close> when it raises).
\<close>

record pylib =
  bytes_decode :: "bytes \<Rightarrow> str"
  str_lower :: "str \<Rightarrow> str"
  format_float :: "rat \<Rightarrow> str"
  repr_strs :: "str list \<Rightarrow> str"
  json_dump :: "json \<Rightarrow> bytes"
  json_load :: "bytes \<Rightarrow> json option"

subsection \<open>Strings\<close>

text \<open>\<^verbatim>\<open>sep.join(xs)\<close>.\<close>

fun join :: "str \<Rightarrow> str list \<Rightarrow> str" where
  "join sep [] = []"
| "join sep [x] = x"
| "join sep (x # y # ys) = x @ sep @ join sep (y # ys)"

text \<open>\<^verbatim>\<open>str(n)\<close> for an integer: decimal digits, with a minus sign when negative.\<close>

fun digits :: "nat \<Rightarrow> nat \<Rightarrow> str" where
  "digits 0 n = []"
| "digits (Suc fuel) n =
     (if n < 10 then [48 + n] else digits fuel (n div 10) @ [48 + n mod 10])"

definition str_of_nat :: "nat \<Rightarrow> str" where
  "str_of_nat n = digits (Suc n) n"

definition str_of_int :: "int \<Rightarrow> str" where
  "str_of_int i = (if i < 0 then 45 # str_of_nat (nat (- i)) else str_of_nat (nat i))"

text \<open>
  \<^verbatim>\<open>needle in haystack\<close> for two strings: the needle starts at some position of the
  haystack.
\<close>

fun str_contains :: "str \<Rightarrow> str \<Rightarrow> bool" where
  "str_contains [] needle = (needle = [])"
| "str_contains (c # cs) needle = (prefix needle (c # cs) \<or> str_contains cs needle)"

text \<open>
  \<^verbatim>\<open>str.splitlines()\<close>: the text is cut at every line boundary (line feed, carriage
  return, carriage return followed by line feed, vertical tab, form feed, the file, group
  and record separators, next line, line separator, paragraph separator); the boundaries
  are dropped and a last line without a boundary is kept.
\<close>

definition is_linebreak :: "nat \<Rightarrow> bool" where
  "is_linebreak c = (c \<in> {10, 11, 12, 13, 28, 29, 30, 133, 8232, 8233})"

fun splitlines_from :: "str \<Rightarrow> str \<Rightarrow> str list" where
  "splitlines_from cur [] = (if cur = [] then [] else [rev cur])"
| "splitlines_from cur (c # cs) =
     (if c = 13 then
        (case cs of
           [] \<Rightarrow> [rev cur]
         | d # ds \<Rightarrow> if d = 10 then rev cur # splitlines_from [] ds
                    else rev cur # splitlines_from [] (d # ds))
      else if is_linebreak c then rev cur # splitlines_from [] cs
      else splitlines_from (c # cur) cs)"

definition splitlines :: "str \<Rightarrow> str list" where
  "splitlines s = splitlines_from [] s"

section \<open>Metrics and thresholds\<close>

text \<open>
  \<^verbatim>\<open>metrics_snapshot\<close> returns a dict with five fixed keys; the three percentages are
  floats and the two network counters are integers.
\<close>

record snapshot =
  cpu_percent :: rat
  mem_percent :: rat
  disk_percent :: rat
  net_bytes_sent :: int
  net_bytes_recv :: int

text \<open>
  The thresholds of the configuration: a dict from metric name to a number.
  \<^verbatim>\<open>thresholds.get(key, 90)\<close>.
\<close>

type_synonym thresholds = "(str \<times> rat) list"

definition get_threshold :: "thresholds \<Rightarrow> string \<Rightarrow> rat" where
  "get_threshold th key = (case map_of th (u key) of None \<Rightarrow> 90 | Some v \<Rightarrow> v)"

definition check_thresholds :: "pylib \<Rightarrow> snapshot \<Rightarrow> thresholds \<Rightarrow> str list" where
  "check_thresholds L snap th =
     (let alerts = [];
          alerts = (if cpu_percent snap \<ge> get_threshold th ''cpu_percent''
                    then alerts @ [u ''CPU usage high: '' @ format_float L (cpu_percent snap) @ u ''%'']
                    else alerts);
          alerts = (if mem_percent snap \<ge> get_threshold th ''mem_percent''
                    then alerts @ [u ''Memory usage high: '' @ format_float L (mem_percent snap) @ u ''%'']
                    else alerts);
          alerts = (if disk_percent snap \<ge> get_threshold th ''disk_percent''
                    then alerts @ [u ''Disk usage high: '' @ format_float L (disk_percent snap) @ u ''%'']
                    else alerts)
      in alerts)"

definition humanize_snapshot :: "pylib \<Rightarrow> snapshot \<Rightarrow> str" where
  "humanize_snapshot L snap =
     u ''CPU: '' @ format_float L (cpu_percent snap) @ u ''% | MEM: '' @
     format_float L (mem_percent snap) @ u ''% | DISK: '' @
     format_float L (disk_percent snap) @ u ''% | NET_SENT: '' @
     str_of_int (net_bytes_sent snap) @ u '' | NET_RECV: '' @
     str_of_int (net_bytes_recv snap)"

section \<open>Pattern scanning\<close>

text \<open>
  The inner loop of \<^verbatim>\<open>scan_for_patterns\<close>: the first pattern whose lower-cased form occurs
  in the lower-cased line ends the loop (\<^verbatim>\<open>break\<close>) with a hit.
\<close>

fun any_pattern_hits :: "pylib \<Rightarrow> str \<Rightarrow> str list \<Rightarrow> bool" where
  "any_pattern_hits L line [] = False"
| "any_pattern_hits L line (p # ps) =
     (if str_contains (str_lower L line) (str_lower L p) then True
      else any_pattern_hits L line ps)"

fun scan_for_patterns :: "pylib \<Rightarrow> str list \<Rightarrow> str list \<Rightarrow> str list" where
  "scan_for_patterns L [] patterns = []"
| "scan_for_patterns L (line # lines) patterns =
     (if any_pattern_hits L line patterns then line # scan_for_patterns L lines patterns
      else scan_for_patterns L lines patterns)"

section \<open>Files\<close>

text \<open>
  The file system as the script sees it: a path names nothing, a regular file with its
  bytes, or a directory (which \<^verbatim>\<open>os.path.exists\<close> accepts and \<^verbatim>\<open>open\<close> refuses with an
  \<^verbatim>\<open>OSError\<close>).
\<close>

datatype node = File bytes | Dir

type_synonym fs = "path \<Rightarrow> node option"

subsection \<open>Log tailing\<close>

text \<open>
  \<^verbatim>\<open>f.seek(last_pos)\<close> on a file opened with \<^verbatim>\<open>"rb"\<close>: the argument must be an integer
  (a bool is one) that fits a signed 64-bit offset, and the operating system refuses a
  negative offset. A position past the end of the file is accepted.
\<close>

definition seek_offset :: "json \<Rightarrow> error + nat" where
  "seek_offset v =
     (case v of
        JInt i \<Rightarrow>
          (if i < - (2 ^ 63) \<or> 2 ^ 63 \<le> i then Inl OverflowError
           else if i < 0 then Inl OSError
           else Inr (nat i))
      | JBool b \<Rightarrow> Inr (if b then 1 else 0)
      | _ \<Rightarrow> Inl TypeError)"

text \<open>
  \<^verbatim>\<open>f.read(max_bytes)\<close> at position \<open>pos\<close>: at most \<open>max_bytes\<close> bytes from there, all
  the rest of the file when \<open>max_bytes\<close> is negative, nothing past the end.
\<close>

definition file_read :: "bytes \<Rightarrow> nat \<Rightarrow> int \<Rightarrow> bytes" where
  "file_read content pos max_bytes =
     (if max_bytes < 0 then drop pos content
      else take (nat max_bytes) (drop pos content))"

text \<open>
  The \<^verbatim>\<open>with\<close> block of \<^verbatim>\<open>tail_log\<close>: seek, read, and \<^verbatim>\<open>f.tell()\<close>, which is the
  position of the seek advanced by the number of bytes read.
\<close>

definition read_from :: "bytes \<Rightarrow> nat \<Rightarrow> int \<Rightarrow> bytes \<times> nat" where
  "read_from content pos max_bytes =
     (let data = file_read content pos max_bytes;
          new_pos = pos + length data
      in (data, new_pos))"

definition tail_log :: "pylib \<Rightarrow> fs \<Rightarrow> path \<Rightarrow> json \<Rightarrow> int \<Rightarrow> error + (str list \<times> nat)" where
  "tail_log L fs file_path last_pos max_bytes =
     (case fs file_path of
        None \<Rightarrow> Inr ([], 0)
      | Some Dir \<Rightarrow> Inl OSError
      | Some (File content) \<Rightarrow>
          (case seek_offset last_pos of
             Inl e \<Rightarrow> Inl e
           | Inr pos \<Rightarrow>
               (case read_from content pos max_bytes of
                  (data, new_pos) \<Rightarrow>
                    let text = bytes_decode L data;
                        lines = splitlines text
                    in Inr (lines, new_pos))))"

subsection \<open>The state file\<close>

definition load_last_state :: "pylib \<Rightarrow> fs \<Rightarrow> path \<Rightarrow> json" where
  "load_last_state L fs state_file =
     (case fs state_file of
        None \<Rightarrow> JObj []
      | Some Dir \<Rightarrow> JObj []
      | Some (File content) \<Rightarrow>
          (case json_load L content of
             None \<Rightarrow> JObj []
           | Some v \<Rightarrow> v))"

definition save_last_state :: "pylib \<Rightarrow> path \<Rightarrow> json \<Rightarrow> fs \<Rightarrow> error + fs" where
  "save_last_state L state_file state fs =
     (case fs state_file of
        Some Dir \<Rightarrow> Inl OSError
      | _ \<Rightarrow> Inr (fs(state_file \<mapsto> File (json_dump L state))))"


section \<open>Alert dispatch\<close>

datatype recipients = ToList "str list" | ToStr str

record smtp_cfg =
  smtp_from :: "str option"
  smtp_to :: "recipients option"
  smtp_server :: "str option"
  smtp_port :: "int option"
  smtp_use_tls :: "bool option"
  smtp_username :: "str option"
  smtp_password :: "str option"

record email =
  mail_from :: str
  mail_to :: str
  mail_subject :: str
  mail_body :: str

text \<open>
  What the mail server does during one dispatch: for each call of \<^verbatim>\<open>smtplib\<close>, the
  exception it raises, if any.
\<close>

record smtp_transport =
  on_connect :: "str \<Rightarrow> int \<Rightarrow> smtp_error option"
  on_starttls :: "smtp_error option"
  on_login :: "str \<Rightarrow> str \<Rightarrow> smtp_error option"
  on_send_message :: "email \<Rightarrow> smtp_error option"
  on_quit :: "smtp_error option"


datatype log_record =
    LogStarting
  | LogSnapshot str
  | LogReadLines nat path
  | LogEmailSent str
  | LogSendFailed error
  | LogAlerts "str list"
  | LogNoAlerts
  | LogInterrupted


record world =
  files :: fs
  oplog :: "log_record list"
  outbox :: "email list"

definition logging :: "log_record \<Rightarrow> world \<Rightarrow> world" where
  "logging r W = W\<lparr>oplog := oplog W @ [r]\<rparr>"

text \<open>
  The \<^verbatim>\<open>try\<close> block of \<^verbatim>\<open>send_email\<close>: the exception that ends it, if any, and the
  messages the server accepted.
\<close>

definition smtp_session :: "smtp_transport \<Rightarrow> smtp_cfg \<Rightarrow> email \<Rightarrow> error option \<times> email list" where
  "smtp_session T c msg =
     (let use_tls = (case smtp_use_tls c of None \<Rightarrow> True | Some b \<Rightarrow> b);
          default_port = (if use_tls then 587 else 25);
          port = (case smtp_port c of None \<Rightarrow> default_port | Some p \<Rightarrow> p);
          starttls = (if use_tls then on_starttls T else None);
          password = (case smtp_password c of None \<Rightarrow> [] | Some pw \<Rightarrow> pw);
          login = (case smtp_username c of
                     None \<Rightarrow> None
                   | Some name \<Rightarrow> (if name = [] then None else on_login T name password))
      in (case smtp_server c of
            None \<Rightarrow> (Some (KeyError (u ''server'')), [])
          | Some server \<Rightarrow>
              (case on_connect T server port of
                 Some e \<Rightarrow> (Some (SMTPException e), [])
               | None \<Rightarrow>
                   (case starttls of
                      Some e \<Rightarrow> (Some (SMTPException e), [])
                    | None \<Rightarrow>
                        (case login of
                           Some e \<Rightarrow> (Some (SMTPException e), [])
                         | None \<Rightarrow>
                             (case on_send_message T msg of
                                Some e \<Rightarrow> (Some (SMTPException e), [])
                              | None \<Rightarrow>
                                  (case on_quit T of
                                     Some e \<Rightarrow> (Some (SMTPException e), [msg])
                                   | None \<Rightarrow> (None, [msg]))))))))"

text \<open>
  The message is built before the \<^verbatim>\<open>try\<close>: a missing \<^verbatim>\<open>from\<close> or \<^verbatim>\<open>to\<close> is a
  \<^verbatim>\<open>KeyError\<close>, and a header of an \<^verbatim>\<open>EmailMessage\<close> refuses a value with a line break
  (\<^verbatim>\<open>ValueError\<close>).
\<close>

definition header_ok :: "str \<Rightarrow> bool" where
  "header_ok v = (length (splitlines v) \<le> 1)"

definition make_message :: "smtp_cfg \<Rightarrow> str \<Rightarrow> str \<Rightarrow> error + email" where
  "make_message c subject body =
     (case smtp_from c of
        None \<Rightarrow> Inl (KeyError (u ''from''))
      | Some sender \<Rightarrow>
          (if \<not> header_ok sender then Inl ValueError
           else
             (case smtp_to c of
                None \<Rightarrow> Inl (KeyError (u ''to''))
              | Some rcpt \<Rightarrow>
                  (let to = (case rcpt of ToList xs \<Rightarrow> join (u '','') xs | ToStr s \<Rightarrow> s)
                   in if \<not> header_ok to then Inl ValueError
                      else if \<not> header_ok subject then Inl ValueError
                      else Inr \<lparr>mail_from = sender, mail_to = to,
                                mail_subject = subject, mail_body = body\<rparr>))))"

text \<open>
  \<^verbatim>\<open>send_email\<close>: whatever the \<^verbatim>\<open>try\<close> block raises is caught by \<^verbatim>\<open>except Exception\<close> and
  logged; only the construction of the message can leave the function with an exception.
\<close>

definition send_email ::
    "smtp_transport \<Rightarrow> smtp_cfg \<Rightarrow> str \<Rightarrow> str \<Rightarrow> world \<Rightarrow> error option \<times> world" where
  "send_email T c subject body W =
     (case make_message c subject body of
        Inl e \<Rightarrow> (Some e, W)
      | Inr msg \<Rightarrow>
          (case smtp_session T c msg of
             (None, sent) \<Rightarrow>
               (None, logging (LogEmailSent (mail_to msg)) (W\<lparr>outbox := outbox W @ sent\<rparr>))
           | (Some e, sent) \<Rightarrow>
               (None, logging (LogSendFailed e) (W\<lparr>outbox := outbox W @ sent\<rparr>))))"

section \<open>One monitoring cycle\<close>

record config =
  cfg_state_file :: "path option"
  cfg_thresholds :: "thresholds option"
  cfg_log_file :: "path option"
  cfg_log_patterns :: "str list option"
  cfg_alert_subject :: "str option"
  cfg_smtp :: "smtp_cfg option"

text \<open>
  What the outside gives one cycle: the reading of \<^verbatim>\<open>psutil\<close> (or the exception it
  raises), the behaviour of the mail server, and \<^verbatim>\<open>time.ctime()\<close>.
\<close>

record cycle_env =
  psutil_reading :: "error + snapshot"
  transport :: smtp_transport
  ctime :: str

definition metrics_snapshot :: "cycle_env \<Rightarrow> error + snapshot" where
  "metrics_snapshot E = psutil_reading E"

definition default_state_file :: path where
  "default_state_file = ''monitor_state.json''"

definition default_log_file :: path where
  "default_log_file = ''/var/log/syslog''"

definition default_patterns :: "str list" where
  "default_patterns = [u ''error'', u ''fail'', u ''critical'', u ''unauthorized'']"

definition snapshot_json :: "snapshot \<Rightarrow> json" where
  "snapshot_json snap =
     JObj [(u ''cpu_percent'', JFloat (cpu_percent snap)),
           (u ''mem_percent'', JFloat (mem_percent snap)),
           (u ''disk_percent'', JFloat (disk_percent snap)),
           (u ''net_bytes_sent'', JInt (net_bytes_sent snap)),
           (u ''net_bytes_recv'', JInt (net_bytes_recv snap))]"

definition hits_message :: "pylib \<Rightarrow> str list \<Rightarrow> str" where
  "hits_message L hits =
     u ''Found '' @ str_of_nat (length hits) @ u '' matching log lines (examples: '' @
     repr_strs L (take 3 hits) @ u '')''"

definition alert_body :: "pylib \<Rightarrow> str \<Rightarrow> snapshot \<Rightarrow> str list \<Rightarrow> str list \<Rightarrow> str" where
  "alert_body L now snap alerts hits =
     join [10]
       [u ''Timestamp: '' @ now,
        humanize_snapshot L snap,
        u ''Alerts:'',
        join [10] alerts,
        [],
        u ''Recent matching log lines:'',
        join [10] (take 50 hits)]"

text \<open>The block under \<^verbatim>\<open>if alerts:\<close> and its \<^verbatim>\<open>else\<close>.\<close>

definition dispatch_alerts ::
    "pylib \<Rightarrow> cycle_env \<Rightarrow> config \<Rightarrow> snapshot \<Rightarrow> str list \<Rightarrow> str list \<Rightarrow> world
       \<Rightarrow> error option \<times> world" where
  "dispatch_alerts L E cfg snap alerts hits W =
     (if alerts \<noteq> [] then
        (let subject = (case cfg_alert_subject cfg of
                          None \<Rightarrow> u ''ALERT: Linux Monitor''
                        | Some s \<Rightarrow> s);
             body = alert_body L (ctime E) snap alerts hits
         in (case cfg_smtp cfg of
               None \<Rightarrow> (Some (KeyError (u ''smtp'')), W)
             | Some c \<Rightarrow>
                 (case send_email (transport E) c subject body W of
                    (Some e, W') \<Rightarrow> (Some e, W')
                  | (None, W') \<Rightarrow> (None, logging (LogAlerts alerts) W'))))
      else (None, logging LogNoAlerts W))"

text \<open>The last three statements of \<^verbatim>\<open>run_once\<close>, under the comment \<^verbatim>\<open># save state\<close>.\<close>

definition save_state ::
    "pylib \<Rightarrow> path \<Rightarrow> (str \<times> json) list \<Rightarrow> nat \<Rightarrow> snapshot \<Rightarrow> world \<Rightarrow> error option \<times> world" where
  "save_state L state_file kvs new_pos snap W =
     (let last_state = AList.update (u ''log_pos'') (JInt (int new_pos)) kvs;
          last_state = AList.update (u ''last_snapshot'') (snapshot_json snap) last_state
      in (case save_last_state L state_file (JObj last_state) (files W) of
            Inl e \<Rightarrow> (Some e, W)
          | Inr fs' \<Rightarrow> (None, W\<lparr>files := fs'\<rparr>)))"

text \<open>
  \<^verbatim>\<open>run_once\<close>. Only a dict has \<^verbatim>\<open>get\<close>, so a state file that holds another JSON value
  ends the cycle with an \<^verbatim>\<open>AttributeError\<close> at \<^verbatim>\<open>last_state.get\<close>.
\<close>

definition run_once :: "pylib \<Rightarrow> cycle_env \<Rightarrow> config \<Rightarrow> world \<Rightarrow> error option \<times> world" where
  "run_once L E cfg W0 =
     (let state_file = (case cfg_state_file cfg of None \<Rightarrow> default_state_file | Some p \<Rightarrow> p);
          last_state = load_last_state L (files W0) state_file;
          thresholds = (case cfg_thresholds cfg of None \<Rightarrow> [] | Some th \<Rightarrow> th);
          log_path = (case cfg_log_file cfg of None \<Rightarrow> default_log_file | Some p \<Rightarrow> p);
          patterns = (case cfg_log_patterns cfg of None \<Rightarrow> default_patterns | Some ps \<Rightarrow> ps)
      in (case metrics_snapshot E of
            Inl e \<Rightarrow> (Some e, W0)
          | Inr snap \<Rightarrow>
              (let W1 = logging (LogSnapshot (humanize_snapshot L snap)) W0;
                   alerts = check_thresholds L snap thresholds
               in (case last_state of
                     JObj kvs \<Rightarrow>
                       (let last_pos = (case map_of kvs (u ''log_pos'') of
                                          None \<Rightarrow> JInt 0
                                        | Some v \<Rightarrow> v)
                        in (case tail_log L (files W1) log_path last_pos 200000 of
                              Inl e \<Rightarrow> (Some e, W1)
                            | Inr (lines, new_pos) \<Rightarrow>
                                (let W2 = logging (LogReadLines (length lines) log_path) W1;
                                     hits = scan_for_patterns L lines patterns;
                                     alerts = (if hits \<noteq> [] then alerts @ [hits_message L hits]
                                               else alerts)
                                 in (case dispatch_alerts L E cfg snap alerts hits W2 of
                                       (Some e, W3) \<Rightarrow> (Some e, W3)
                                     | (None, W3) \<Rightarrow>
                                         save_state L state_file kvs new_pos snap W3))))
                   | _ \<Rightarrow> (Some AttributeError, W1)))))"

section \<open>The scheduler\<close>

text \<open>
  The loop of \<^verbatim>\<open>main\<close> runs until something stops it. One element of the list below is
  what the outside does during one round: what the cycle meets, whether the user
  interrupts the \<^verbatim>\<open>time.sleep\<close> that follows it, and what other processes do to the files
  meanwhile. The loop is run for as many rounds as the list has.
\<close>

record tick =
  tick_env :: cycle_env
  interrupted :: bool
  outside :: "fs \<Rightarrow> fs"

datatype outcome = Running | Exited | Crashed error

fun run_loop :: "pylib \<Rightarrow> config \<Rightarrow> tick list \<Rightarrow> world \<Rightarrow> outcome \<times> world" where
  "run_loop L cfg [] W = (Running, W)"
| "run_loop L cfg (t # ts) W =
     (case run_once L (tick_env t) cfg W of
        (Some e, W') \<Rightarrow>
          if e = KeyboardInterrupt then (Exited, logging LogInterrupted W')
          else (Crashed e, W')
      | (None, W') \<Rightarrow>
          if interrupted t then (Exited, logging LogInterrupted W')
          else run_loop L cfg ts (W'\<lparr>files := outside t (files W')\<rparr>))"

record args =
  arg_once :: bool
  arg_interval :: int

definition main :: "pylib \<Rightarrow> args \<Rightarrow> error + config \<Rightarrow> tick list \<Rightarrow> world \<Rightarrow> outcome \<times> world" where
  "main L a cfg_read ticks W =
     (case cfg_read of
        Inl e \<Rightarrow> (Crashed e, W)
      | Inr cfg \<Rightarrow>
          let W = logging LogStarting W
          in if arg_once a \<or> arg_interval a \<le> 0 then
               (case ticks of
                  [] \<Rightarrow> (Running, W)
                | t # ts \<Rightarrow>
                    (case run_once L (tick_env t) cfg W of
                       (Some e, W') \<Rightarrow> (Crashed e, W')
                     | (None, W') \<Rightarrow> (Exited, W')))
             else run_loop L cfg ticks W)"

section \<open>A reference instance of the library\<close>

text \<open>
  To run the model on concrete data, the library functions are given here for ASCII
  data: decoding shows every byte above 127 as the replacement character U+FFFD (what
  \<^verbatim>\<open>decode\<close> does with a byte that starts no valid sequence), \<open>lower\<close> maps A-Z to a-z, a
  float is written in positional decimal notation with at least one digit after the
  point, and the JSON codec writes and reads integers, such floats, strings without
  escapes, \<^verbatim>\<open>null\<close>, \<^verbatim>\<open>true\<close>, \<^verbatim>\<open>false\<close>, lists and dicts, with the separators of \<^verbatim>\<open>json.dump\<close>
  (\<^verbatim>\<open>", "\<close> and \<^verbatim>\<open>": "\<close>). On such data they agree with CPython.
\<close>

definition ascii_decode :: "bytes \<Rightarrow> str" where
  "ascii_decode bs = map (\<lambda>c. if (of_char c :: nat) < 128 then of_char c else 65533) bs"

definition ascii_lower :: "str \<Rightarrow> str" where
  "ascii_lower s = map (\<lambda>c. if 65 \<le> c \<and> c \<le> 90 then c + 32 else c) s"

fun frac_digits :: "nat \<Rightarrow> rat \<Rightarrow> str" where
  "frac_digits 0 r = []"
| "frac_digits (Suc fuel) r =
     (if r = 0 then []
      else (let d = \<lfloor>r * 10\<rfloor> in (48 + nat d) # frac_digits fuel (r * 10 - of_int d)))"

definition decimal_float :: "rat \<Rightarrow> str" where
  "decimal_float r =
     (let a = \<bar>r\<bar>; whole = \<lfloor>a\<rfloor>; frac = a - of_int whole
      in (if r < 0 then [45] else []) @ str_of_nat (nat whole) @ [46] @
         (if frac = 0 then [48] else frac_digits 17 frac))"

definition quote :: "str \<Rightarrow> str" where
  "quote s = [34] @ s @ [34]"

definition repr_list :: "str list \<Rightarrow> str" where
  "repr_list xs = [91] @ join (u '', '') (map (\<lambda>s. [39] @ s @ [39]) xs) @ [93]"

fun dump_json :: "json \<Rightarrow> str"
and dump_elems :: "json list \<Rightarrow> str"
and dump_members :: "(str \<times> json) list \<Rightarrow> str" where
  "dump_json JNull = u ''null''"
| "dump_json (JBool b) = (if b then u ''true'' else u ''false'')"
| "dump_json (JInt i) = str_of_int i"
| "dump_json (JFloat r) = decimal_float r"
| "dump_json (JStr s) = quote s"
| "dump_json (JArr xs) = [91] @ dump_elems xs @ [93]"
| "dump_json (JObj kvs) = [123] @ dump_members kvs @ [125]"
| "dump_elems [] = []"
| "dump_elems [x] = dump_json x"
| "dump_elems (x # y # ys) = dump_json x @ u '', '' @ dump_elems (y # ys)"
| "dump_members [] = []"
| "dump_members [(k, v)] = quote k @ u '': '' @ dump_json v"
| "dump_members ((k, v) # kv # kvs) = quote k @ u '': '' @ dump_json v @ u '', '' @ dump_members (kv # kvs)"

definition is_digit :: "nat \<Rightarrow> bool" where
  "is_digit c = (48 \<le> c \<and> c \<le> 57)"

definition is_space :: "nat \<Rightarrow> bool" where
  "is_space c = (c = 32 \<or> c = 9 \<or> c = 10 \<or> c = 13)"

definition skip_ws :: "str \<Rightarrow> str" where
  "skip_ws s = dropWhile is_space s"

definition digits_value :: "str \<Rightarrow> nat" where
  "digits_value ds = foldl (\<lambda>a d. 10 * a + (d - 48)) 0 ds"

definition expect :: "nat \<Rightarrow> str \<Rightarrow> str option" where
  "expect c s = (case skip_ws s of [] \<Rightarrow> None | d # ds \<Rightarrow> if d = c then Some ds else None)"

definition parse_string :: "str \<Rightarrow> (str \<times> str) option" where
  "parse_string s =
     (let body = takeWhile (\<lambda>c. c \<noteq> 34) s; rest = dropWhile (\<lambda>c. c \<noteq> 34) s
      in if rest = [] \<or> 92 \<in> set body then None else Some (body, tl rest))"

definition parse_number :: "str \<Rightarrow> (json \<times> str) option" where
  "parse_number s =
     (let neg = (s \<noteq> [] \<and> hd s = 45);
          s1 = (if neg then tl s else s);
          ds = takeWhile is_digit s1; r1 = dropWhile is_digit s1;
          sign = (if neg then - 1 else 1)
      in if ds = [] then None
         else if r1 \<noteq> [] \<and> hd r1 = 46 then
           (let fs = takeWhile is_digit (tl r1); r2 = dropWhile is_digit (tl r1)
            in if fs = [] then None
               else Some (JFloat (of_int sign * (of_nat (digits_value ds) +
                            of_nat (digits_value fs) / 10 ^ length fs)), r2))
         else Some (JInt (sign * int (digits_value ds)), r1))"

fun parse_value :: "nat \<Rightarrow> str \<Rightarrow> (json \<times> str) option"
and parse_elems :: "nat \<Rightarrow> str \<Rightarrow> (json list \<times> str) option"
and parse_members :: "nat \<Rightarrow> str \<Rightarrow> ((str \<times> json) list \<times> str) option" where
  "parse_value 0 s = None"
| "parse_value (Suc n) s =
     (case skip_ws s of
        [] \<Rightarrow> None
      | c # cs \<Rightarrow>
          (if c = 123 then
             (case expect 125 cs of
                Some r \<Rightarrow> Some (JObj [], r)
              | None \<Rightarrow> map_option (\<lambda>(m, r). (JObj m, r)) (parse_members n cs))
           else if c = 91 then
             (case expect 93 cs of
                Some r \<Rightarrow> Some (JArr [], r)
              | None \<Rightarrow> map_option (\<lambda>(xs, r). (JArr xs, r)) (parse_elems n cs))
           else if c = 34 then map_option (\<lambda>(t, r). (JStr t, r)) (parse_string cs)
           else if prefix (u ''null'') (c # cs) then Some (JNull, drop 4 (c # cs))
           else if prefix (u ''true'') (c # cs) then Some (JBool True, drop 4 (c # cs))
           else if prefix (u ''false'') (c # cs) then Some (JBool False, drop 5 (c # cs))
           else parse_number (c # cs)))"
| "parse_elems 0 s = None"
| "parse_elems (Suc n) s =
     (case parse_value n s of
        None \<Rightarrow> None
      | Some (v, r) \<Rightarrow>
          (case expect 93 r of
             Some r' \<Rightarrow> Some ([v], r')
           | None \<Rightarrow>
               (case expect 44 r of
                  None \<Rightarrow> None
                | Some r' \<Rightarrow> map_option (\<lambda>(vs, r''). (v # vs, r'')) (parse_elems n r'))))"
| "parse_members 0 s = None"
| "parse_members (Suc n) s =
     (case expect 34 s of
        None \<Rightarrow> None
      | Some s1 \<Rightarrow>
          (case parse_string s1 of
             None \<Rightarrow> None
           | Some (k, s2) \<Rightarrow>
               (case expect 58 s2 of
                  None \<Rightarrow> None
                | Some s3 \<Rightarrow>
                    (case parse_value n s3 of
                       None \<Rightarrow> None
                     | Some (v, r) \<Rightarrow>
                         (case expect 125 r of
                            Some r' \<Rightarrow> Some ([(k, v)], r')
                          | None \<Rightarrow>
                              (case expect 44 r of
                                 None \<Rightarrow> None
                               | Some r' \<Rightarrow>
                                   map_option (\<lambda>(m, r''). ((k, v) # m, r'')) (parse_members n r')))))))"

definition ascii_json_dump :: "json \<Rightarrow> bytes" where
  "ascii_json_dump v = map char_of (dump_json v)"

definition ascii_json_load :: "bytes \<Rightarrow> json option" where
  "ascii_json_load bs =
     (case parse_value (Suc (length bs)) (map of_char bs) of
        None \<Rightarrow> None
      | Some (v, r) \<Rightarrow> if skip_ws r = [] then Some v else None)"

definition ascii_lib :: pylib where
  "ascii_lib = \<lparr>bytes_decode = ascii_decode, str_lower = ascii_lower,
                format_float = decimal_float, repr_strs = repr_list,
                json_dump = ascii_json_dump, json_load = ascii_json_load\<rparr>"

section \<open>The specification's words\<close>

text \<open>
  Threshold evaluation as the specification words it: the metrics in the fixed order
  cpu, mem, disk; a metric breaches when its value is at least its limit, the configured
  one or 90; one message per breaching metric, with the metric's name and its value.
\<close>

datatype metric = Cpu | Mem | Disk

fun metric_key :: "metric \<Rightarrow> string" where
  "metric_key Cpu = ''cpu_percent''"
| "metric_key Mem = ''mem_percent''"
| "metric_key Disk = ''disk_percent''"

fun metric_name :: "metric \<Rightarrow> string" where
  "metric_name Cpu = ''CPU''"
| "metric_name Mem = ''Memory''"
| "metric_name Disk = ''Disk''"

fun metric_value :: "snapshot \<Rightarrow> metric \<Rightarrow> rat" where
  "metric_value snap Cpu = cpu_percent snap"
| "metric_value snap Mem = mem_percent snap"
| "metric_value snap Disk = disk_percent snap"

definition limit :: "thresholds \<Rightarrow> metric \<Rightarrow> rat" where
  "limit th m = (case map_of th (u (metric_key m)) of None \<Rightarrow> 90 | Some v \<Rightarrow> v)"

definition breaches :: "snapshot \<Rightarrow> thresholds \<Rightarrow> metric \<Rightarrow> bool" where
  "breaches snap th m = (metric_value snap m \<ge> limit th m)"

definition breach_message :: "pylib \<Rightarrow> snapshot \<Rightarrow> metric \<Rightarrow> str" where
  "breach_message L snap m =
     u (metric_name m) @ u '' usage high: '' @ format_float L (metric_value snap m) @ u ''%''"

definition evaluate_spec :: "pylib \<Rightarrow> snapshot \<Rightarrow> thresholds \<Rightarrow> str list" where
  "evaluate_spec L snap th = map (breach_message L snap) (filter (breaches snap th) [Cpu, Mem, Disk])"




text \<open>The paths a cycle works on, as \<^verbatim>\<open>run_once\<close> reads them from the configuration.\<close>

definition state_path :: "config \<Rightarrow> path" where
  "state_path cfg = (case cfg_state_file cfg of None \<Rightarrow> default_state_file | Some p \<Rightarrow> p)"

definition log_path :: "config \<Rightarrow> path" where
  "log_path cfg = (case cfg_log_file cfg of None \<Rightarrow> default_log_file | Some p \<Rightarrow> p)"

text \<open>The offset a cycle starts from: \<^verbatim>\<open>last_state.get("log_pos", 0)\<close>.\<close>

definition start_offset :: "(str \<times> json) list \<Rightarrow> json" where
  "start_offset kvs = (case map_of kvs (u ''log_pos'') of None \<Rightarrow> JInt 0 | Some v \<Rightarrow> v)"

section \<open>Example data\<close>

text \<open>
  A configuration with one pattern and a mail account, a reading of the metrics below
  every limit, a mail server that accepts everything and one that refuses the connection.
\<close>

definition example_smtp :: smtp_cfg where
  "example_smtp =
     \<lparr>smtp_from = Some (u ''monitor@example.org''),
      smtp_to = Some (ToList [u ''ops@example.org'']),
      smtp_server = Some (u ''mail.example.org''),
      smtp_port = None, smtp_use_tls = None, smtp_username = None, smtp_password = None\<rparr>"

definition example_cfg :: config where
  "example_cfg =
     \<lparr>cfg_state_file = Some ''state.json'',
      cfg_thresholds = Some [(u ''cpu_percent'', 90)],
      cfg_log_file = Some ''app.log'',
      cfg_log_patterns = Some [u ''error''],
      cfg_alert_subject = None,
      cfg_smtp = Some example_smtp\<rparr>"

definition quiet :: snapshot where
  "quiet = \<lparr>cpu_percent = 10, mem_percent = 10, disk_percent = 10,
            net_bytes_sent = 0, net_bytes_recv = 0\<rparr>"

definition server_up :: smtp_transport where
  "server_up = \<lparr>on_connect = (\<lambda>host port. None), on_starttls = None,
                on_login = (\<lambda>name pw. None), on_send_message = (\<lambda>msg. None),
                on_quit = None\<rparr>"


definition cycle :: "error + snapshot \<Rightarrow> smtp_transport \<Rightarrow> cycle_env" where
  "cycle reading server = \<lparr>psutil_reading = reading, transport = server, ctime = u ''now''\<rparr>"

definition world_of :: "fs \<Rightarrow> world" where
  "world_of fs = \<lparr>files = fs, oplog = [], outbox = []\<rparr>"



text \<open>
  A state file left by earlier cycles, with an offset of 5 and an entry the monitor does
  not know, and no log file.
\<close>

definition aged_fs :: fs where
  "aged_fs = Map.empty(''state.json'' \<mapsto>
     File (json_dump ascii_lib (JObj [(u ''log_pos'', JInt 5), (u ''owner'', JStr (u ''ops''))])))"

text \<open>A run every 60 seconds, and a round that nobody interrupts or disturbs.\<close>

definition interval_args :: args where
  "interval_args = \<lparr>arg_once = False, arg_interval = 60\<rparr>"

definition tick_of :: "cycle_env \<Rightarrow> tick" where
  "tick_of E = \<lparr>tick_env = E, interrupted = False, outside = (\<lambda>fs. fs)\<rparr>"

section \<open>Properties\<close>

subsection \<open>Threshold evaluation\<close>

lemma u_Cons: "u (c # cs) = of_char c # u cs" and u_Nil: "u [] = []"
  by (simp_all add: u_def)

lemma limit_get_threshold: "get_threshold th (metric_key m) = limit th m"
  by (simp add: get_threshold_def limit_def)

lemma check_thresholds_evaluate: "check_thresholds L snap th = evaluate_spec L snap th"
  using limit_get_threshold [of th Cpu] limit_get_threshold [of th Mem]
    limit_get_threshold [of th Disk]
  by (simp add: check_thresholds_def evaluate_spec_def breaches_def breach_message_def Let_def u_def)

lemma breach_message_inj: "breach_message L snap m = breach_message L snap m' \<Longrightarrow> m = m'"
  by (cases m; cases m') (simp_all add: breach_message_def u_def)

lemma metric_cases: "(\<forall>m. P m) = (P Cpu \<and> P Mem \<and> P Disk)"
  by (metis metric.exhaust)

text \<open>
  Claim C6. For every metrics sample and every thresholds mapping, \<^verbatim>\<open>check_thresholds\<close>
  returns what the specification's evaluation returns: the message of metric \<open>m\<close> is
  in the result exactly when the value of \<open>m\<close> is at least its limit (the configured
  one, or 90 when the metric is not configured; equality is a breach), the messages stand
  in the order cpu, mem, disk, each made of the metric's name and the observed value, and
  the result is empty exactly when no metric reaches its limit.
\<close>

theorem check_thresholds_spec:
  "check_thresholds L snap th = evaluate_spec L snap th
   \<and> (\<forall>m. (breach_message L snap m \<in> set (check_thresholds L snap th))
            = (limit th m \<le> metric_value snap m))
   \<and> ((check_thresholds L snap th = []) = (\<forall>m. metric_value snap m < limit th m))"
proof (intro conjI allI)
  show "check_thresholds L snap th = evaluate_spec L snap th"
    by (rule check_thresholds_evaluate)
next
  fix m
  have "(breach_message L snap m \<in> set (evaluate_spec L snap th)) = breaches snap th m"
    unfolding evaluate_spec_def
    by (cases m) (auto dest: breach_message_inj)
  then show "(breach_message L snap m \<in> set (check_thresholds L snap th))
            = (limit th m \<le> metric_value snap m)"
    by (simp add: check_thresholds_evaluate breaches_def)
next
  have "(evaluate_spec L snap th = []) = (\<forall>m. \<not> breaches snap th m)"
    unfolding evaluate_spec_def metric_cases by (simp add: filter_empty_conv)
  then show "(check_thresholds L snap th = []) = (\<forall>m. metric_value snap m < limit th m)"
    by (simp add: check_thresholds_evaluate breaches_def not_le)
qed

text \<open>
  The threshold evaluation on a sample with a cpu value above its configured limit, a
  memory value below the default and a disk value equal to the default limit.
\<close>

theorem check_thresholds_spec_witness:
  "check_thresholds ascii_lib
     \<lparr>cpu_percent = 95, mem_percent = 10, disk_percent = 90, net_bytes_sent = 0, net_bytes_recv = 0\<rparr>
     [(u ''cpu_percent'', 90)]
   = [u ''CPU usage high: 95.0%'', u ''Disk usage high: 90.0%'']"
proof -
  have "evaluate_spec ascii_lib
     \<lparr>cpu_percent = 95, mem_percent = 10, disk_percent = 90, net_bytes_sent = 0, net_bytes_recv = 0\<rparr>
     [(u ''cpu_percent'', 90)]
   = [u ''CPU usage high: 95.0%'', u ''Disk usage high: 90.0%'']"
    by code_simp
  with check_thresholds_spec [of ascii_lib
     "\<lparr>cpu_percent = 95, mem_percent = 10, disk_percent = 90, net_bytes_sent = 0, net_bytes_recv = 0\<rparr>"
     "[(u ''cpu_percent'', 90)]"]
  show ?thesis by simp
qed

subsection \<open>Pattern scanning\<close>





subsection \<open>Log tailing\<close>

















subsection \<open>The state file\<close>


lemma save_last_state_ok:
  "fs p \<noteq> Some Dir \<Longrightarrow> save_last_state L p S fs = Inr (fs(p \<mapsto> File (json_dump L S)))"
  by (cases "fs p") (auto simp: save_last_state_def split: node.splits)







subsection \<open>The cycle, step by step\<close>

lemma files_logging: "files (logging r W) = files W"
  by (simp add: logging_def)

lemma send_email_frame: "files (snd (send_email T c s b W)) = files W"
  by (simp add: send_email_def files_logging split: sum.split option.split prod.split)


lemma dispatch_alerts_frame: "files (snd (dispatch_alerts L E cfg snap alerts hits W)) = files W"
proof -
  have "files (snd (case send_email T c s b W of
                      (Some e, W') \<Rightarrow> (Some e, W')
                    | (None, W') \<Rightarrow> (None, logging r W'))) = files W" for T c s b r
    using send_email_frame [of T c s b W]
    by (cases "send_email T c s b W") (auto simp: files_logging split: option.split)
  then show ?thesis
    by (simp add: dispatch_alerts_def Let_def files_logging split: option.split)
qed




lemma run_once_steps:
  assumes "psutil_reading E = Inr snap"
    and "load_last_state L (files W) (state_path cfg) = JObj kvs"
    and "tail_log L (files W) (log_path cfg) (start_offset kvs) 200000 = Inr (lines, new_pos)"
  shows "run_once L E cfg W =
           (case dispatch_alerts L E cfg snap
                   (if scan_for_patterns L lines
                         (case cfg_log_patterns cfg of None \<Rightarrow> default_patterns | Some ps \<Rightarrow> ps) \<noteq> []
                    then check_thresholds L snap
                           (case cfg_thresholds cfg of None \<Rightarrow> [] | Some th \<Rightarrow> th)
                         @ [hits_message L
                              (scan_for_patterns L lines
                                 (case cfg_log_patterns cfg of
                                    None \<Rightarrow> default_patterns | Some ps \<Rightarrow> ps))]
                    else check_thresholds L snap
                           (case cfg_thresholds cfg of None \<Rightarrow> [] | Some th \<Rightarrow> th))
                   (scan_for_patterns L lines
                      (case cfg_log_patterns cfg of None \<Rightarrow> default_patterns | Some ps \<Rightarrow> ps))
                   (logging (LogReadLines (length lines) (log_path cfg))
                      (logging (LogSnapshot (humanize_snapshot L snap)) W)) of
              (Some e, W3) \<Rightarrow> (Some e, W3)
            | (None, W3) \<Rightarrow> save_state L (state_path cfg) kvs new_pos snap W3)"
proof -
  have t: "tail_log L (files (logging (LogSnapshot (humanize_snapshot L snap)) W))
             (log_path cfg) (start_offset kvs) 200000 = Inr (lines, new_pos)"
    using assms(3) by (simp add: files_logging)
  show ?thesis
    using assms(1,2) t
    unfolding run_once_def metrics_snapshot_def Let_def state_path_def log_path_def
      start_offset_def
    by simp
qed

lemma run_once_JObj:
  assumes "psutil_reading E = Inr snap"
    and "load_last_state L (files W) (state_path cfg) = JObj kvs"
    and "tail_log L (files W) (log_path cfg) (start_offset kvs) 200000 = Inr (lines, new_pos)"
  shows "\<exists>alerts hits W2. files W2 = files W \<and>
           run_once L E cfg W =
             (case dispatch_alerts L E cfg snap alerts hits W2 of
                (Some e, W3) \<Rightarrow> (Some e, W3)
              | (None, W3) \<Rightarrow> save_state L (state_path cfg) kvs new_pos snap W3)
           \<and> (\<forall>E'. psutil_reading E' = Inr snap \<longrightarrow>
                 run_once L E' cfg W =
                   (case dispatch_alerts L E' cfg snap alerts hits W2 of
                      (Some e, W3) \<Rightarrow> (Some e, W3)
                    | (None, W3) \<Rightarrow> save_state L (state_path cfg) kvs new_pos snap W3))"
proof -
  have f: "files (logging (LogReadLines (length lines) (log_path cfg))
                   (logging (LogSnapshot (humanize_snapshot L snap)) W)) = files W"
    by (simp add: files_logging)
  have r: "\<forall>E'. psutil_reading E' = Inr snap \<longrightarrow>
             run_once L E' cfg W = (case dispatch_alerts L E' cfg snap
                   (if scan_for_patterns L lines
                         (case cfg_log_patterns cfg of None \<Rightarrow> default_patterns | Some ps \<Rightarrow> ps) \<noteq> []
                    then check_thresholds L snap
                           (case cfg_thresholds cfg of None \<Rightarrow> [] | Some th \<Rightarrow> th)
                         @ [hits_message L
                              (scan_for_patterns L lines
                                 (case cfg_log_patterns cfg of
                                    None \<Rightarrow> default_patterns | Some ps \<Rightarrow> ps))]
                    else check_thresholds L snap
                           (case cfg_thresholds cfg of None \<Rightarrow> [] | Some th \<Rightarrow> th))
                   (scan_for_patterns L lines
                      (case cfg_log_patterns cfg of None \<Rightarrow> default_patterns | Some ps \<Rightarrow> ps))
                   (logging (LogReadLines (length lines) (log_path cfg))
                      (logging (LogSnapshot (humanize_snapshot L snap)) W)) of
              (Some e, W3) \<Rightarrow> (Some e, W3)
            | (None, W3) \<Rightarrow> save_state L (state_path cfg) kvs new_pos snap W3)"
    using run_once_steps [OF _ assms(2,3)] by blast
  from f r assms(1) show ?thesis by blast
qed

lemma run_once_no_metrics:
  "psutil_reading E = Inl e \<Longrightarrow> run_once L E cfg W = (Some e, W)"
  by (simp add: run_once_def metrics_snapshot_def Let_def)

lemma run_once_no_dict:
  assumes "psutil_reading E = Inr snap"
    and "\<forall>kvs. load_last_state L (files W) (state_path cfg) \<noteq> JObj kvs"
  shows "run_once L E cfg W = (Some AttributeError, logging (LogSnapshot (humanize_snapshot L snap)) W)"
  using assms
  unfolding run_once_def metrics_snapshot_def Let_def state_path_def
  by (cases "load_last_state L (files W)
               (case cfg_state_file cfg of None \<Rightarrow> default_state_file | Some p \<Rightarrow> p)")
     simp_all

lemma run_once_no_tail:
  assumes "psutil_reading E = Inr snap"
    and "load_last_state L (files W) (state_path cfg) = JObj kvs"
    and "tail_log L (files W) (log_path cfg) (start_offset kvs) 200000 = Inl e"
  shows "run_once L E cfg W = (Some e, logging (LogSnapshot (humanize_snapshot L snap)) W)"
  using assms
  unfolding run_once_def metrics_snapshot_def Let_def state_path_def log_path_def start_offset_def
  by (simp add: files_logging)


lemma save_state_success:
  assumes "save_state L sf kvs n snap W = (None, W')"
  shows "files W sf \<noteq> Some Dir
         \<and> files W' = (files W)(sf \<mapsto> File (json_dump L (JObj
              (AList.update (u ''last_snapshot'') (snapshot_json snap)
                 (AList.update (u ''log_pos'') (JInt (int n)) kvs)))))"
  using assms
  by (auto simp: save_state_def save_last_state_def Let_def
           split: sum.splits option.splits node.splits)

lemma save_state_failure:
  "save_state L sf kvs n snap W = (Some e, W') \<Longrightarrow> W' = W"
  by (auto simp: save_state_def Let_def split: sum.splits)

lemma run_once_success:
  assumes "run_once L E cfg W = (None, W')"
  shows "\<exists>kvs snap lines new_pos.
           load_last_state L (files W) (state_path cfg) = JObj kvs
           \<and> psutil_reading E = Inr snap
           \<and> tail_log L (files W) (log_path cfg) (start_offset kvs) 200000 = Inr (lines, new_pos)
           \<and> files W (state_path cfg) \<noteq> Some Dir
           \<and> files W' = (files W)(state_path cfg \<mapsto> File (json_dump L (JObj
                (AList.update (u ''last_snapshot'') (snapshot_json snap)
                   (AList.update (u ''log_pos'') (JInt (int new_pos)) kvs)))))"
proof (cases "psutil_reading E")
  case (Inl e)
  with assms show ?thesis by (simp add: run_once_no_metrics)
next
  case (Inr snap)
  show ?thesis
  proof (cases "\<exists>kvs. load_last_state L (files W) (state_path cfg) = JObj kvs")
    case False
    then have "\<forall>kvs. load_last_state L (files W) (state_path cfg) \<noteq> JObj kvs" by blast
    from run_once_no_dict [OF Inr this] assms show ?thesis by simp
  next
    case True
    then obtain kvs where kvs: "load_last_state L (files W) (state_path cfg) = JObj kvs" by blast
    show ?thesis
    proof (cases "tail_log L (files W) (log_path cfg) (start_offset kvs) 200000")
      case (Inl e)
      from run_once_no_tail [OF Inr kvs Inl] assms show ?thesis by simp
    next
      case tl: (Inr r)
      obtain lines new_pos where r: "r = (lines, new_pos)" by (cases r)
      from run_once_JObj [OF Inr kvs tl [unfolded r]]
      obtain alerts hits W2 where f: "files W2 = files W"
        and e: "run_once L E cfg W =
             (case dispatch_alerts L E cfg snap alerts hits W2 of
                (Some e, W3) \<Rightarrow> (Some e, W3)
              | (None, W3) \<Rightarrow> save_state L (state_path cfg) kvs new_pos snap W3)"
        by blast
      obtain a W3 where d: "dispatch_alerts L E cfg snap alerts hits W2 = (a, W3)"
        by (cases "dispatch_alerts L E cfg snap alerts hits W2")
      have f3: "files W3 = files W"
        using dispatch_alerts_frame [of L E cfg snap alerts hits W2] d f by simp
      have "a = None \<and> save_state L (state_path cfg) kvs new_pos snap W3 = (None, W')"
        using assms e d by (cases a) simp_all
      with save_state_success [of L "state_path cfg" kvs new_pos snap W3 W'] f3
      have "files W (state_path cfg) \<noteq> Some Dir
         \<and> files W' = (files W)(state_path cfg \<mapsto> File (json_dump L (JObj
              (AList.update (u ''last_snapshot'') (snapshot_json snap)
                 (AList.update (u ''log_pos'') (JInt (int new_pos)) kvs)))))"
        by simp
      with kvs Inr tl r show ?thesis by blast
    qed
  qed
qed

lemma run_once_failure_frame:
  assumes "run_once L E cfg W = (Some e, W')"
  shows "files W' = files W"
proof (cases "psutil_reading E")
  case (Inl e')
  with assms show ?thesis by (simp add: run_once_no_metrics)
next
  case (Inr snap)
  show ?thesis
  proof (cases "\<exists>kvs. load_last_state L (files W) (state_path cfg) = JObj kvs")
    case False
    then have "\<forall>kvs. load_last_state L (files W) (state_path cfg) \<noteq> JObj kvs" by blast
    from run_once_no_dict [OF Inr this] assms show ?thesis by (auto simp: files_logging)
  next
    case True
    then obtain kvs where kvs: "load_last_state L (files W) (state_path cfg) = JObj kvs" by blast
    show ?thesis
    proof (cases "tail_log L (files W) (log_path cfg) (start_offset kvs) 200000")
      case (Inl e')
      from run_once_no_tail [OF Inr kvs Inl] assms show ?thesis by (auto simp: files_logging)
    next
      case tl: (Inr r)
      obtain lines new_pos where r: "r = (lines, new_pos)" by (cases r)
      from run_once_JObj [OF Inr kvs tl [unfolded r]]
      obtain alerts hits W2 where f: "files W2 = files W"
        and e: "run_once L E cfg W =
             (case dispatch_alerts L E cfg snap alerts hits W2 of
                (Some e, W3) \<Rightarrow> (Some e, W3)
              | (None, W3) \<Rightarrow> save_state L (state_path cfg) kvs new_pos snap W3)"
        by blast
      obtain a W3 where d: "dispatch_alerts L E cfg snap alerts hits W2 = (a, W3)"
        by (cases "dispatch_alerts L E cfg snap alerts hits W2")
      have f3: "files W3 = files W"
        using dispatch_alerts_frame [of L E cfg snap alerts hits W2] d f by simp
      have "W' = W3"
        using assms e d save_state_failure [of L "state_path cfg" kvs new_pos snap W3 e W']
        by (cases a) simp_all
      with f3 show ?thesis by simp
    qed
  qed
qed

subsection \<open>Dispatch failures\<close>



lemma example_reading: "psutil_reading (cycle (Inr quiet) T) = Inr quiet"
  by (simp add: cycle_def)




lemma example_check:
  "check_thresholds ascii_lib quiet
     (case cfg_thresholds example_cfg of None \<Rightarrow> [] | Some th \<Rightarrow> th) = []"
  by code_simp






subsection \<open>The persisted offset\<close>


lemma tail_log_absent: "fs p = None \<Longrightarrow> tail_log L fs p v cap = Inr ([], 0)"
  by (simp add: tail_log_def)


lemma dispatch_no_alerts:
  "dispatch_alerts L E cfg snap [] hits W = (None, logging LogNoAlerts W)"
  by (simp add: dispatch_alerts_def)

lemma run_once_quiet_no_log:
  assumes "psutil_reading E = Inr snap"
    and "load_last_state L (files W) (state_path cfg) = JObj kvs"
    and "files W (log_path cfg) = None"
    and "check_thresholds L snap (case cfg_thresholds cfg of None \<Rightarrow> [] | Some th \<Rightarrow> th) = []"
    and "files W (state_path cfg) \<noteq> Some Dir"
  shows "fst (run_once L E cfg W) = None
         \<and> files (snd (run_once L E cfg W))
           = (files W)(state_path cfg \<mapsto> File (json_dump L (JObj
                (AList.update (u ''last_snapshot'') (snapshot_json snap)
                   (AList.update (u ''log_pos'') (JInt 0) kvs)))))"
proof -
  have tl: "tail_log L (files W) (log_path cfg) (start_offset kvs) 200000 = Inr ([], 0)"
    using assms(3) by (rule tail_log_absent)
  have sv: "save_last_state L (state_path cfg) S (files W)
            = Inr ((files W)(state_path cfg \<mapsto> File (json_dump L S)))" for S
    using save_last_state_ok [of "files W" "state_path cfg" L S] assms(5) by simp
  show ?thesis
    unfolding run_once_steps [OF assms(1,2) tl]
    by (simp add: assms(4) dispatch_no_alerts save_state_def Let_def files_logging sv)
qed

lemma aged_load:
  "load_last_state ascii_lib (files (world_of aged_fs)) (state_path example_cfg)
   = JObj [(u ''log_pos'', JInt 5), (u ''owner'', JStr (u ''ops''))]"
proof -
  have "json_load ascii_lib
          (json_dump ascii_lib (JObj [(u ''log_pos'', JInt 5), (u ''owner'', JStr (u ''ops''))]))
        = Some (JObj [(u ''log_pos'', JInt 5), (u ''owner'', JStr (u ''ops''))])"
    by code_simp
  then show ?thesis
    by (simp add: load_last_state_def world_of_def aged_fs_def state_path_def example_cfg_def)
qed

lemma aged_run:
  "fst (run_once ascii_lib (cycle (Inr quiet) server_up) example_cfg (world_of aged_fs)) = None
   \<and> files (snd (run_once ascii_lib (cycle (Inr quiet) server_up) example_cfg (world_of aged_fs)))
        ''state.json''
       = Some (File (json_dump ascii_lib
           (JObj [(u ''log_pos'', JInt 0), (u ''owner'', JStr (u ''ops'')),
                  (u ''last_snapshot'', snapshot_json quiet)])))"
proof -
  have 3: "files (world_of aged_fs) (log_path example_cfg) = None"
    by (simp add: world_of_def aged_fs_def log_path_def example_cfg_def)
  have 5: "files (world_of aged_fs) (state_path example_cfg) \<noteq> Some Dir"
    by (simp add: world_of_def aged_fs_def state_path_def example_cfg_def)
  from run_once_quiet_no_log [OF example_reading aged_load 3 example_check 5]
  show ?thesis
    by (simp add: state_path_def example_cfg_def u_def)
qed





subsection \<open>The other entries of the state\<close>

text \<open>
  Claim C10. A cycle that succeeds writes the state file with the dict it loaded, in
  which only the entries \<^verbatim>\<open>log_pos\<close> and \<^verbatim>\<open>last_snapshot\<close> are set: every other key has the
  value it had in the loaded state, and no other file is changed. A cycle that ends with
  an exception changes no file.
\<close>

theorem run_once_frame:
  "(\<forall>W'. run_once L E cfg W = (None, W') \<longrightarrow>
      (\<exists>kvs kvs'. load_last_state L (files W) (state_path cfg) = JObj kvs
         \<and> files W' (state_path cfg) = Some (File (json_dump L (JObj kvs')))
         \<and> (\<forall>k. k \<noteq> u ''log_pos'' \<and> k \<noteq> u ''last_snapshot'' \<longrightarrow> map_of kvs' k = map_of kvs k)
         \<and> (\<forall>q. q \<noteq> state_path cfg \<longrightarrow> files W' q = files W q)))
   \<and> (\<forall>e W'. run_once L E cfg W = (Some e, W') \<longrightarrow> files W' = files W)"
proof (intro conjI allI impI)
  fix W'
  assume "run_once L E cfg W = (None, W')"
  from run_once_success [OF this]
  obtain kvs snap and lines :: "str list" and new_pos where
    kvs: "load_last_state L (files W) (state_path cfg) = JObj kvs"
    and fw: "files W' = (files W)(state_path cfg \<mapsto> File (json_dump L (JObj
                (AList.update (u ''last_snapshot'') (snapshot_json snap)
                   (AList.update (u ''log_pos'') (JInt (int new_pos)) kvs)))))"
    by blast
  define kvs' where "kvs' = AList.update (u ''last_snapshot'') (snapshot_json snap)
                   (AList.update (u ''log_pos'') (JInt (int new_pos)) kvs)"
  have 1: "files W' (state_path cfg) = Some (File (json_dump L (JObj kvs')))"
    by (simp add: fw kvs'_def)
  have 2: "\<forall>k. k \<noteq> u ''log_pos'' \<and> k \<noteq> u ''last_snapshot'' \<longrightarrow> map_of kvs' k = map_of kvs k"
    by (simp add: kvs'_def update_conv')
  have 3: "\<forall>q. q \<noteq> state_path cfg \<longrightarrow> files W' q = files W q"
    by (simp add: fw)
  show "\<exists>kvs kvs'. load_last_state L (files W) (state_path cfg) = JObj kvs
         \<and> files W' (state_path cfg) = Some (File (json_dump L (JObj kvs')))
         \<and> (\<forall>k. k \<noteq> u ''log_pos'' \<and> k \<noteq> u ''last_snapshot'' \<longrightarrow> map_of kvs' k = map_of kvs k)
         \<and> (\<forall>q. q \<noteq> state_path cfg \<longrightarrow> files W' q = files W q)"
  proof (intro exI conjI)
    show "load_last_state L (files W) (state_path cfg) = JObj kvs" by (rule kvs)
    show "files W' (state_path cfg) = Some (File (json_dump L (JObj kvs')))" by (rule 1)
    show "\<forall>k. k \<noteq> u ''log_pos'' \<and> k \<noteq> u ''last_snapshot'' \<longrightarrow> map_of kvs' k = map_of kvs k"
      by (rule 2)
    show "\<forall>q. q \<noteq> state_path cfg \<longrightarrow> files W' q = files W q" by (rule 3)
  qed
next
  fix e W'
  assume "run_once L E cfg W = (Some e, W')"
  then show "files W' = files W" by (rule run_once_failure_frame)
qed

text \<open>The entry \<^verbatim>\<open>owner\<close> of the state file is written back by the cycle.\<close>

theorem run_once_frame_witness:
  "run_once ascii_lib (cycle (Inr quiet) server_up) example_cfg (world_of aged_fs)
     = (None, snd (run_once ascii_lib (cycle (Inr quiet) server_up) example_cfg (world_of aged_fs)))
   \<and> (\<exists>kvs'. files (snd (run_once ascii_lib (cycle (Inr quiet) server_up) example_cfg
                              (world_of aged_fs))) ''state.json''
               = Some (File (json_dump ascii_lib (JObj kvs')))
             \<and> map_of kvs' (u ''owner'') = Some (JStr (u ''ops'')))
   \<and> files (snd (run_once ascii_lib (cycle (Inr quiet) server_up) example_cfg (world_of aged_fs)))
        ''app.log'' = None"
proof -
  let ?r = "run_once ascii_lib (cycle (Inr quiet) server_up) example_cfg (world_of aged_fs)"
  have h: "?r = (None, snd ?r)"
    using aged_run by (simp add: prod_eq_iff)
  have sp: "state_path example_cfg = ''state.json''"
    by (simp add: state_path_def example_cfg_def)
  from run_once_frame [of ascii_lib "cycle (Inr quiet) server_up" example_cfg "world_of aged_fs"] h
  obtain kvs kvs' where
    1: "load_last_state ascii_lib (files (world_of aged_fs)) (state_path example_cfg) = JObj kvs"
    and 2: "files (snd ?r) (state_path example_cfg) = Some (File (json_dump ascii_lib (JObj kvs')))"
    and 3: "\<forall>k. k \<noteq> u ''log_pos'' \<and> k \<noteq> u ''last_snapshot'' \<longrightarrow> map_of kvs' k = map_of kvs k"
    and 4: "\<forall>q. q \<noteq> state_path example_cfg \<longrightarrow> files (snd ?r) q = files (world_of aged_fs) q"
    by blast
  from 1 aged_load have k: "kvs = [(u ''log_pos'', JInt 5), (u ''owner'', JStr (u ''ops''))]"
    by simp
  have "u ''owner'' \<noteq> u ''log_pos'' \<and> u ''owner'' \<noteq> u ''last_snapshot''"
    by (simp add: u_def)
  with 3 have "map_of kvs' (u ''owner'') = map_of kvs (u ''owner'')" by blast
  also have "\<dots> = Some (JStr (u ''ops''))" unfolding k by (simp add: u_def)
  finally have 5: "map_of kvs' (u ''owner'') = Some (JStr (u ''ops''))" .
  have 6: "files (snd ?r) ''app.log'' = None"
    using 4 sp by (simp add: world_of_def aged_fs_def)
  from 2 5 sp have "\<exists>kvs'. files (snd ?r) ''state.json'' = Some (File (json_dump ascii_lib (JObj kvs')))
             \<and> map_of kvs' (u ''owner'') = Some (JStr (u ''ops''))"
    by auto
  with h 6 show ?thesis by blast
qed

subsection \<open>The scheduler\<close>

lemma run_loop_append:
  "run_loop L cfg pre W = (Running, W1) \<Longrightarrow>
   run_loop L cfg (pre @ rest) W = run_loop L cfg rest W1"
proof (induction pre arbitrary: W)
  case Nil
  then show ?case by simp
next
  case (Cons t pre)
  obtain r W' where r: "run_once L (tick_env t) cfg W = (r, W')"
    by (cases "run_once L (tick_env t) cfg W")
  show ?case
  proof (cases r)
    case None
    with Cons.prems r have ni: "\<not> interrupted t"
      and rest: "run_loop L cfg pre (W'\<lparr>files := outside t (files W')\<rparr>) = (Running, W1)"
      by (auto split: if_splits)
    from Cons.IH [OF rest] r None ni show ?thesis by simp
  next
    case (Some e)
    with Cons.prems r show ?thesis by (auto split: if_splits)
  qed
qed

lemma run_loop_crash:
  assumes "psutil_reading (tick_env t) = Inl e" and "e \<noteq> KeyboardInterrupt"
  shows "run_loop L cfg (t # ts) W = (Crashed e, W)"
  using assms by (simp add: run_once_no_metrics)

lemma main_interval:
  "\<not> arg_once a \<Longrightarrow> 0 < arg_interval a \<Longrightarrow>
   main L a (Inr cfg) ticks W = run_loop L cfg ticks (logging LogStarting W)"
  by (simp add: main_def Let_def)

lemma interval_mode: "\<not> arg_once interval_args" "0 < arg_interval interval_args"
  by (simp_all add: interval_args_def)

lemma aged_round:
  "fst (main ascii_lib interval_args (Inr example_cfg)
          [tick_of (cycle (Inr quiet) server_up)] (world_of aged_fs)) = Running
   \<and> files (snd (main ascii_lib interval_args (Inr example_cfg)
          [tick_of (cycle (Inr quiet) server_up)] (world_of aged_fs))) ''state.json''
       = Some (File (json_dump ascii_lib
           (JObj [(u ''log_pos'', JInt 0), (u ''owner'', JStr (u ''ops'')),
                  (u ''last_snapshot'', snapshot_json quiet)])))"
proof -
  let ?W = "logging LogStarting (world_of aged_fs)"
  have ld: "load_last_state ascii_lib (files ?W) (state_path example_cfg)
            = JObj [(u ''log_pos'', JInt 5), (u ''owner'', JStr (u ''ops''))]"
    using aged_load by (simp add: files_logging)
  have 3: "files ?W (log_path example_cfg) = None"
    by (simp add: files_logging world_of_def aged_fs_def log_path_def example_cfg_def)
  have 5: "files ?W (state_path example_cfg) \<noteq> Some Dir"
    by (simp add: files_logging world_of_def aged_fs_def state_path_def example_cfg_def)
  note q = run_once_quiet_no_log [OF example_reading ld 3 example_check 5, of server_up]
  obtain r W' where r: "run_once ascii_lib (cycle (Inr quiet) server_up) example_cfg ?W = (r, W')"
    by (cases "run_once ascii_lib (cycle (Inr quiet) server_up) example_cfg ?W")
  with q have rn: "r = None"
    and fw: "files W' ''state.json'' = Some (File (json_dump ascii_lib
           (JObj [(u ''log_pos'', JInt 0), (u ''owner'', JStr (u ''ops'')),
                  (u ''last_snapshot'', snapshot_json quiet)])))"
    by (simp_all add: state_path_def example_cfg_def u_def)
  have "main ascii_lib interval_args (Inr example_cfg)
          [tick_of (cycle (Inr quiet) server_up)] (world_of aged_fs)
        = (Running, W'\<lparr>files := files W'\<rparr>)"
    unfolding main_interval [OF interval_mode]
    using r rn by (simp add: tick_of_def)
  with fw show ?thesis by simp
qed

text \<open>
  Claim C5, as the specification states it, fails. In a run every 60 seconds, the first
  cycle cannot read the metrics: the run ends with that exception and the files are as
  they were; the second round, whose cycle alone would have succeeded and written the
  state file, never starts.
\<close>

theorem collection_error_counterexample:
  "fst (main ascii_lib interval_args (Inr example_cfg)
          [tick_of (cycle (Inl PsutilError) server_up), tick_of (cycle (Inr quiet) server_up)]
          (world_of aged_fs)) = Crashed PsutilError
   \<and> files (snd (main ascii_lib interval_args (Inr example_cfg)
          [tick_of (cycle (Inl PsutilError) server_up), tick_of (cycle (Inr quiet) server_up)]
          (world_of aged_fs))) = aged_fs
   \<and> fst (main ascii_lib interval_args (Inr example_cfg)
          [tick_of (cycle (Inr quiet) server_up)] (world_of aged_fs)) = Running
   \<and> files (snd (main ascii_lib interval_args (Inr example_cfg)
          [tick_of (cycle (Inr quiet) server_up)] (world_of aged_fs))) ''state.json''
       = Some (File (json_dump ascii_lib
           (JObj [(u ''log_pos'', JInt 0), (u ''owner'', JStr (u ''ops'')),
                  (u ''last_snapshot'', snapshot_json quiet)])))"
proof -
  have 1: "main ascii_lib interval_args (Inr example_cfg)
          [tick_of (cycle (Inl PsutilError) server_up), tick_of (cycle (Inr quiet) server_up)]
          (world_of aged_fs) = (Crashed PsutilError, logging LogStarting (world_of aged_fs))"
    unfolding main_interval [OF interval_mode]
    by (simp add: run_once_no_metrics tick_of_def cycle_def)
  from 1 aged_round show ?thesis
    by (simp add: files_logging world_of_def)
qed

text \<open>
  Claim C5, amended. In every interval-mode run, after any number of completed rounds,
  a cycle in which the metrics source cannot be read (any exception but
  \<^verbatim>\<open>KeyboardInterrupt\<close>) aborts with nothing persisted and nothing logged, and the
  exception ends the run: the loop of \<^verbatim>\<open>main\<close> catches only \<^verbatim>\<open>KeyboardInterrupt\<close>, and no
  later cycle is run.
\<close>

theorem collection_error_ends_run:
  assumes "\<not> arg_once a" and "0 < arg_interval a"
    and "main L a (Inr cfg) pre W = (Running, W1)"
    and "psutil_reading (tick_env t) = Inl e" and "e \<noteq> KeyboardInterrupt"
  shows "main L a (Inr cfg) (pre @ t # ts) W = (Crashed e, W1)"
proof -
  have "run_loop L cfg pre (logging LogStarting W) = (Running, W1)"
    using assms(3) main_interval [OF assms(1,2)] by simp
  then have "run_loop L cfg (pre @ t # ts) (logging LogStarting W) = run_loop L cfg (t # ts) W1"
    by (rule run_loop_append)
  also have "\<dots> = (Crashed e, W1)"
    using assms(4,5) by (rule run_loop_crash)
  finally show ?thesis
    using main_interval [OF assms(1,2)] by simp
qed

text \<open>A completed round, then a cycle that cannot read the metrics, then a round never run.\<close>

theorem collection_error_ends_run_witness:
  "\<not> arg_once interval_args \<and> 0 < arg_interval interval_args
   \<and> main ascii_lib interval_args (Inr example_cfg) [tick_of (cycle (Inr quiet) server_up)]
        (world_of aged_fs)
       = (Running, snd (main ascii_lib interval_args (Inr example_cfg)
                          [tick_of (cycle (Inr quiet) server_up)] (world_of aged_fs)))
   \<and> psutil_reading (tick_env (tick_of (cycle (Inl PsutilError) server_up))) = Inl PsutilError
   \<and> PsutilError \<noteq> KeyboardInterrupt
   \<and> main ascii_lib interval_args (Inr example_cfg)
        ([tick_of (cycle (Inr quiet) server_up)]
           @ tick_of (cycle (Inl PsutilError) server_up) # [tick_of (cycle (Inr quiet) server_up)])
        (world_of aged_fs)
       = (Crashed PsutilError,
          snd (main ascii_lib interval_args (Inr example_cfg)
                 [tick_of (cycle (Inr quiet) server_up)] (world_of aged_fs)))"
proof -
  let ?m = "main ascii_lib interval_args (Inr example_cfg)
              [tick_of (cycle (Inr quiet) server_up)] (world_of aged_fs)"
  have h3: "?m = (Running, snd ?m)" using aged_round by (simp add: prod_eq_iff)
  have h4: "psutil_reading (tick_env (tick_of (cycle (Inl PsutilError) server_up))) = Inl PsutilError"
    by (simp add: tick_of_def cycle_def)
  have h5: "PsutilError \<noteq> KeyboardInterrupt" by simp
  from collection_error_ends_run [OF interval_mode h3 h4 h5,
         of "[tick_of (cycle (Inr quiet) server_up)]"]
       interval_mode h3 h4 h5
  show ?thesis by blast
qed

end
